theory Spec2Isabelle
  imports Complex_Main "HOL-Library.Monad_Syntax" "HOL-Library.Sublist"
begin

section \<open>PTYProcess: data model\<close>

text \<open>
  The controller of \<^verbatim>\<open>saga/utils/pty_process.py\<close>. Byte strings are \<open>string\<close>,
  times are seconds as \<open>real\<close>. The operating system is part of the state: every
  system call the class makes (\<^verbatim>\<open>pty.fork\<close>, \<^verbatim>\<open>os.waitpid\<close>, \<^verbatim>\<open>os.kill\<close>, \<^verbatim>\<open>os.close\<close>,
  \<^verbatim>\<open>select.select\<close> with \<^verbatim>\<open>os.read\<close> or \<^verbatim>\<open>os.write\<close>, \<^verbatim>\<open>time.time\<close>) answers from a
  script indexed by the number of calls made so far, so a state fixes one run of the
  environment and the theorems quantify over all of them.
\<close>

datatype wstat = Exited nat | Signaled nat | Stopped nat | Continued

datatype exc = NoSuccess string | BadParameter string | OSError nat string | PyException string

datatype 'a outcome = Return 'a | Raise exc

datatype fork_result = ForkFails string | Forked nat nat | ForkedTermiosFails nat nat string

datatype wait_result = WaitFails nat string | Waited nat wstat

datatype poll_result = SelectFails string | NotReady | ReadFails nat string | Data string

datatype wpoll_result = WSelectFails string | WNotReady | WriteFails nat string | Wrote nat

record pty =
  command :: "string list"
  cache :: string
  child :: "nat option"
  child_fd :: "nat option"
  parent_in :: "nat option"
  parent_out :: "nat option"
  exit_code :: "nat option"
  exit_signal :: "nat option"
  recover_max :: nat
  recover_attempts :: nat
  platform :: string
  os_fork :: "nat \<Rightarrow> fork_result"
  nfork :: nat
  os_waitpid :: "nat \<Rightarrow> wait_result"
  nwait :: nat
  nkill :: nat
  os_close :: "nat \<Rightarrow> bool"
  nclose :: nat
  closed :: "nat list"
  os_poll :: "nat \<Rightarrow> poll_result"
  npoll :: nat
  os_wpoll :: "nat \<Rightarrow> wpoll_result"
  nwpoll :: nat
  os_time :: "nat \<Rightarrow> real"
  ntime :: nat

definition CHUNKSIZE :: nat where
  "CHUNKSIZE = 1024"

definition POLLDELAY :: real where
  "POLLDELAY = 1 / 100"

definition ECHILD :: nat where
  "ECHILD = 10"

text \<open>Python truth of an attribute holding \<^verbatim>\<open>None\<close> or an integer.\<close>

definition truthy :: "nat option \<Rightarrow> bool" where
  "truthy v = (case v of None \<Rightarrow> False | Some n \<Rightarrow> n \<noteq> 0)"

text \<open>\<^verbatim>\<open>buf.replace ('\r', '')\<close>\<close>

definition strip_cr :: "string \<Rightarrow> string" where
  "strip_cr buf = filter (\<lambda>c. c \<noteq> CHR 0x0D) buf"

text \<open>\<^verbatim>\<open>self.cache[-256:]\<close>\<close>

definition tail256 :: "string \<Rightarrow> string" where
  "tail256 c = drop (length c - 256) c"

text \<open>\<^verbatim>\<open>' '.join (self.command)\<close>\<close>

fun join_sp :: "string list \<Rightarrow> string" where
  "join_sp [] = []"
| "join_sp [w] = w"
| "join_sp (w # ws) = w @ '' '' @ join_sp ws"

text \<open>
  \<^verbatim>\<open>"%s" % e\<close>: the text of an exception. A SAGA exception prints its plain message.
\<close>

fun str_exc :: "exc \<Rightarrow> string" where
  "str_exc (NoSuccess m) = m"
| "str_exc (BadParameter m) = m"
| "str_exc (OSError n m) = m"
| "str_exc (PyException m) = m"

fun WIFSTOPPED :: "wstat \<Rightarrow> bool" where
  "WIFSTOPPED (Stopped g) = True"
| "WIFSTOPPED w = False"

fun WIFCONTINUED :: "wstat \<Rightarrow> bool" where
  "WIFCONTINUED Continued = True"
| "WIFCONTINUED w = False"

section \<open>initialize and finalize\<close>

text \<open>
  \<^verbatim>\<open>initialize\<close>, seen from the parent. A \<^verbatim>\<open>pty.fork\<close> that answers pid 0 is the
  child side, whose image \<^verbatim>\<open>execvpe\<close> replaces: the call does not return to the
  caller of the controller.
\<close>

definition initialize :: "pty \<Rightarrow> (unit outcome \<times> pty) option" where
  "initialize s =
     (if truthy (child s) then Some (Return (), s)
      else
        (let s1 = s\<lparr>nfork := Suc (nfork s)\<rparr> in
         case os_fork s (nfork s) of
           ForkFails m \<Rightarrow>
             Some (Raise (NoSuccess (''Could not run ('' @ join_sp (command s) @ ''): '' @ m)), s1)
         | Forked pid fd \<Rightarrow>
             if pid = 0 then None
             else Some (Return (), s1\<lparr>child := Some pid, child_fd := Some fd,
                                      parent_in := Some fd, parent_out := Some fd\<rparr>)
         | ForkedTermiosFails pid fd m \<Rightarrow>
             if pid = 0 then None
             else Some (Raise (PyException m), s1\<lparr>child := Some pid, child_fd := Some fd\<rparr>)))"

text \<open>\<^verbatim>\<open>os.kill (self.child, signal.SIGKILL)\<close>, an \<^verbatim>\<open>OSError\<close> of which is passed over.\<close>

definition kill_child :: "pty \<Rightarrow> pty" where
  "kill_child s = s\<lparr>nkill := Suc (nkill s)\<rparr>"

text \<open>The \<^verbatim>\<open>while True\<close> of \<^verbatim>\<open>finalize\<close>: blocking \<^verbatim>\<open>waitpid\<close> until a pid comes back.\<close>

partial_function (option) finalize_reap :: "pty \<Rightarrow> (wstat option \<times> pty) option" where
  "finalize_reap s =
     (let s1 = s\<lparr>nwait := Suc (nwait s)\<rparr> in
      case os_waitpid s (nwait s) of
        WaitFails e m \<Rightarrow> Some (None, s1\<lparr>exit_code := None, exit_signal := None\<rparr>)
      | Waited wpid w \<Rightarrow> if wpid \<noteq> 0 then Some (Some w, s1) else finalize_reap s1)"

text \<open>The post-mortem of \<^verbatim>\<open>finalize\<close>.\<close>

fun classify :: "wstat option \<Rightarrow> pty \<Rightarrow> pty" where
  "classify (Some (Exited c)) s = s\<lparr>exit_code := Some c, exit_signal := None\<rparr>"
| "classify (Some (Signaled g)) s = s\<lparr>exit_code := None, exit_signal := Some g\<rparr>"
| "classify w s = s"

text \<open>
  The closing of \<^verbatim>\<open>parent_out\<close>: \<open>os_close\<close> tells whether the call succeeds; when
  \<^verbatim>\<open>os.close\<close> raises \<^verbatim>\<open>OSError\<close> the assignment of \<^verbatim>\<open>None\<close> is not reached. \<open>closed\<close>
  lists the descriptors closed so far.
\<close>

definition close_parent_out :: "pty \<Rightarrow> pty" where
  "close_parent_out s =
     (case parent_out s of
        None \<Rightarrow> s
      | Some fd \<Rightarrow>
          if fd = 0 then s
          else if os_close s (nclose s)
            then s\<lparr>nclose := Suc (nclose s), closed := closed s @ [fd], parent_out := None\<rparr>
            else s\<lparr>nclose := Suc (nclose s)\<rparr>)"

definition finalize :: "wstat option \<Rightarrow> pty \<Rightarrow> (unit outcome \<times> pty) option" where
  "finalize wstat s =
     do {
       (w, s1) \<leftarrow> (if wstat = None \<and> truthy (child s) then finalize_reap (kill_child s)
                   else Some (wstat, s));
       Some (Return (), close_parent_out (classify w (s1\<lparr>child := None\<rparr>)))
     }"

section \<open>alive, wait, autopsy\<close>

text \<open>
  The \<^verbatim>\<open>while True\<close> of \<^verbatim>\<open>alive\<close>: \<^verbatim>\<open>waitpid\<close> with \<^verbatim>\<open>WNOHANG\<close>. \<open>Return None\<close> is the
  \<^verbatim>\<open>return True\<close> of the loop (no status change), \<open>Return (Some w)\<close> the \<^verbatim>\<open>break\<close> with
  the status of a dead child. An \<^verbatim>\<open>OSError\<close> of \<^verbatim>\<open>waitpid\<close> is not caught here.
\<close>

partial_function (option) alive_reap :: "pty \<Rightarrow> (wstat option outcome \<times> pty) option" where
  "alive_reap s =
     (let s1 = s\<lparr>nwait := Suc (nwait s)\<rparr> in
      case os_waitpid s (nwait s) of
        WaitFails e m \<Rightarrow> Some (Raise (OSError e m), s1)
      | Waited wpid w \<Rightarrow>
          if wpid = 0 then Some (Return None, s1)
          else if WIFSTOPPED w \<or> WIFCONTINUED w then alive_reap s1
          else Some (Return (Some w), s1))"

text \<open>
  The first half of \<^verbatim>\<open>alive\<close>, up to the check of \<^verbatim>\<open>recover\<close>: \<open>Return True\<close> is the
  \<^verbatim>\<open>return True\<close>, \<open>Return False\<close> a child that is absent or was found dead and finalized.
\<close>

definition alive_check :: "pty \<Rightarrow> (bool outcome \<times> pty) option" where
  "alive_check s =
     (if truthy (child s) then
        do {
          (r, s1) \<leftarrow> alive_reap s;
          case r of
            Raise e \<Rightarrow> Some (Raise e, s1)
          | Return None \<Rightarrow> Some (Return True, s1)
          | Return (Some w) \<Rightarrow>
              do {
                (u, s2) \<leftarrow> finalize (Some w) (s1\<lparr>child := None\<rparr>);
                Some (Return False, s2)
              }
        }
      else Some (Return False, s))"

partial_function (option) alive :: "bool \<Rightarrow> pty \<Rightarrow> (bool outcome \<times> pty) option" where
  "alive recover s =
     do {
       (r, s1) \<leftarrow> alive_check s;
       case r of
         Raise e \<Rightarrow> Some (Raise e, s1)
       | Return ok \<Rightarrow>
           if ok then Some (Return True, s1)
           else if \<not> recover then Some (Return False, s1)
           else if recover_attempts s1 \<ge> recover_max s1 then Some (Return False, s1)
           else
             do {
               (i, s2) \<leftarrow> initialize (s1\<lparr>recover_attempts := recover_attempts s1 + 1\<rparr>);
               case i of
                 Raise e \<Rightarrow> Some (Raise e, s2)
               | Return u \<Rightarrow> alive True s2
             }
     }"

partial_function (option) wait :: "pty \<Rightarrow> (unit outcome \<times> pty) option" where
  "wait s =
     (if \<not> truthy (child s) then Some (Return (), s)
      else
        (let s1 = s\<lparr>nwait := Suc (nwait s)\<rparr> in
         case os_waitpid s (nwait s) of
           WaitFails e m \<Rightarrow>
             if e = ECHILD then finalize None (s1\<lparr>exit_code := None, exit_signal := None\<rparr>)
             else Some (Raise (NoSuccess (''waitpid failed: '' @ m)), s1)
         | Waited wpid w \<Rightarrow>
             if wpid = 0 then wait s1
             else if WIFSTOPPED w \<or> WIFCONTINUED w then wait s1
             else finalize (Some w) (s1\<lparr>child := None\<rparr>)))"

text \<open>\<^verbatim>\<open>"%s" % v\<close> for an attribute holding \<^verbatim>\<open>None\<close> or a non-negative integer.\<close>

fun str_nat :: "nat \<Rightarrow> string" where
  "str_nat n =
     (if n < 10 then [char_of (48 + n)] else str_nat (n div 10) @ [char_of (48 + n mod 10)])"

definition str_opt :: "nat option \<Rightarrow> string" where
  "str_opt v = (case v of None \<Rightarrow> ''None'' | Some n \<Rightarrow> str_nat n)"

definition autopsy :: "pty \<Rightarrow> string" where
  "autopsy s =
     (if truthy (child s) then ''false alarm, process '' @ str_opt (child s) @ '' is alive!''
      else ''  exit code  : '' @ str_opt (exit_code s) @ [CHR 0x0A]
         @ ''  exit signal: '' @ str_opt (exit_signal s) @ [CHR 0x0A]
         @ ''  last output: '' @ tail256 (cache s) @ [CHR 0x0A])"

section \<open>read\<close>

text \<open>
  The handler of \<^verbatim>\<open>read\<close>, applied where the exception is raised: the \<^verbatim>\<open>try\<close> spans the
  whole loop and the handler reads the cache as the raise left it.
\<close>

definition read_except :: "bool \<Rightarrow> exc \<Rightarrow> pty \<Rightarrow> string outcome" where
  "read_except found_eof e s =
     (if found_eof then Raise e
      else Raise (NoSuccess (''read from process failed '' @ [CHR 0x27] @ str_exc e @ [CHR 0x27]
                             @ '' : ('' @ tail256 (cache s) @ '')'')))"

text \<open>
  One \<^verbatim>\<open>select\<close> on \<^verbatim>\<open>[self.parent_out]\<close> and the \<^verbatim>\<open>for f in rlist\<close> after it. With
  \<^verbatim>\<open>parent_out\<close> holding \<^verbatim>\<open>None\<close>, \<^verbatim>\<open>select\<close> raises. \<^verbatim>\<open>os.read (f, _CHUNKSIZE)\<close> gives at
  most \<open>CHUNKSIZE\<close> bytes. \<open>Inr s'\<close> is the state that goes on in the loop, \<open>Inl\<close> the
  exception as \<^verbatim>\<open>read\<close> raises it.
\<close>

definition read_poll :: "pty \<Rightarrow> (string outcome \<times> pty + pty) option" where
  "read_poll s =
     (case parent_out s of
        None \<Rightarrow> Some (Inl (read_except False (PyException ''argument must be an int, or have a fileno() method.'') s, s))
      | Some f \<Rightarrow>
          (let s1 = s\<lparr>npoll := Suc (npoll s)\<rparr> in
           case os_poll s (npoll s) of
             SelectFails m \<Rightarrow> Some (Inl (read_except False (PyException m) s1, s1))
           | NotReady \<Rightarrow> Some (Inr s1)
           | ReadFails e m \<Rightarrow> Some (Inl (read_except False (OSError e m) s1, s1))
           | Data b \<Rightarrow>
               (let buf = take CHUNKSIZE b in
                if length buf = 0 \<and> platform s1 = ''darwin'' then
                  do {
                    (u, s2) \<leftarrow> finalize None s1;
                    Some (Inl (read_except True
                                 (NoSuccess (''unexpected EOF ('' @ tail256 (cache s2) @ '')'')) s2, s2))
                  }
                else Some (Inr (s1\<lparr>cache := cache s1 @ strip_cr buf\<rparr>)))))"

text \<open>
  The two places of the loop that hand out cached data: everything when \<^verbatim>\<open>size\<close> is 0,
  the first \<^verbatim>\<open>size\<close> bytes when the cache holds that many.
\<close>

definition from_cache :: "nat \<Rightarrow> pty \<Rightarrow> (string outcome \<times> pty) option" where
  "from_cache sz s =
     (if cache s \<noteq> [] then
        (if sz = 0 then Some (Return (cache s), s\<lparr>cache := []\<rparr>)
         else if sz \<le> length (cache s)
           then Some (Return (take sz (cache s)), s\<lparr>cache := drop sz (cache s)\<rparr>)
           else None)
      else None)"

partial_function (option) read_loop ::
  "nat \<Rightarrow> real \<Rightarrow> real \<Rightarrow> pty \<Rightarrow> (string outcome \<times> pty) option" where
  "read_loop sz timeout start s =
     (case from_cache sz s of
        Some r \<Rightarrow> Some r
      | None \<Rightarrow>
          do {
            p \<leftarrow> read_poll s;
            case p of
              Inl r \<Rightarrow> Some r
            | Inr s1 \<Rightarrow>
                (case from_cache sz s1 of
                   Some r \<Rightarrow> Some r
                 | None \<Rightarrow>
                     if timeout = 0 then
                       (if cache s1 \<noteq> [] then Some (Return (cache s1), s1\<lparr>cache := []\<rparr>)
                        else read_loop sz timeout start s1)
                     else if timeout < 0 then Some (Return (cache s1), s1\<lparr>cache := []\<rparr>)
                     else
                       (let now = os_time s1 (ntime s1); s2 = s1\<lparr>ntime := Suc (ntime s1)\<rparr> in
                        if now - start > timeout then Some (Return (cache s2), s2\<lparr>cache := []\<rparr>)
                        else read_loop sz timeout start s2))
          })"

definition read :: "nat \<Rightarrow> real \<Rightarrow> pty \<Rightarrow> (string outcome \<times> pty) option" where
  "read sz timeout s =
     do {
       (a, s1) \<leftarrow> alive False s;
       case a of
         Raise e \<Rightarrow> Some (Raise e, s1)
       | Return ok \<Rightarrow>
           if \<not> ok then
             Some (Raise (NoSuccess (if cache s1 \<noteq> [] then ''process I/O failed: '' @ tail256 (cache s1)
                                     else ''process I/O failed'')), s1)
           else read_loop sz timeout (os_time s1 (ntime s1)) (s1\<lparr>ntime := Suc (ntime s1)\<rparr>)
     }"

section \<open>find\<close>

text \<open>
  A compiled pattern is what \<^verbatim>\<open>find\<close> uses of it: \<^verbatim>\<open>search\<close> on the data, giving
  \<^verbatim>\<open>match.end()\<close> or no match. The regular expression engine is a parameter
  \<open>re_compile\<close> of \<^verbatim>\<open>find\<close>, \<open>Inl\<close> being the message of the error \<^verbatim>\<open>re.compile\<close> raises.
\<close>

type_synonym compiled = "string \<Rightarrow> nat option"

fun compile_all :: "('p \<Rightarrow> string + compiled) \<Rightarrow> 'p list \<Rightarrow> string + compiled list" where
  "compile_all re_compile [] = Inr []"
| "compile_all re_compile (p # ps) =
     (case re_compile p of
        Inl m \<Rightarrow> Inl m
      | Inr c \<Rightarrow> (case compile_all re_compile ps of Inl m \<Rightarrow> Inl m | Inr cs \<Rightarrow> Inr (c # cs)))"

text \<open>\<^verbatim>\<open>for n in range (0, len(patts))\<close>: the first pattern of the list that matches.\<close>

fun first_match_from :: "nat \<Rightarrow> compiled list \<Rightarrow> string \<Rightarrow> (nat \<times> nat) option" where
  "first_match_from n [] data = None"
| "first_match_from n (p # ps) data =
     (case p data of Some e \<Rightarrow> Some (n, e) | None \<Rightarrow> first_match_from (Suc n) ps data)"

definition first_match :: "compiled list \<Rightarrow> string \<Rightarrow> (nat \<times> nat) option" where
  "first_match patts data = first_match_from 0 patts data"

text \<open>The handler of \<^verbatim>\<open>find\<close>; \<open>data\<close> is the local variable as the raise left it.\<close>

definition find_except :: "exc \<Rightarrow> string \<Rightarrow> (nat option \<times> string option) outcome" where
  "find_except e data = Raise (NoSuccess (''output parsing failed ('' @ str_exc e @ ''): '' @ data))"

text \<open>
  The \<^verbatim>\<open>while True\<close> of \<^verbatim>\<open>find\<close>. \<^verbatim>\<open>data\<close> is a string from its first assignment on, so
  the test \<^verbatim>\<open>None == data\<close> is never true.
\<close>

partial_function (option) find_loop ::
  "compiled list \<Rightarrow> real \<Rightarrow> real \<Rightarrow> string \<Rightarrow> pty
     \<Rightarrow> ((nat option \<times> string option) outcome \<times> pty) option" where
  "find_loop patts timeout start data s =
     (case first_match patts data of
        Some (n, e) \<Rightarrow> Some (Return (Some n, Some (strip_cr (take e data))), s\<lparr>cache := drop e data\<rparr>)
      | None \<Rightarrow>
          if timeout = 0 then Some (Return (None, None), s)
          else
            (let expired = (timeout > 0 \<and> os_time s (ntime s) - start > timeout);
                 s1 = (if timeout > 0 then s\<lparr>ntime := Suc (ntime s)\<rparr> else s)
             in
               if expired then Some (Return (None, None), s1\<lparr>cache := data\<rparr>)
               else
                 do {
                   (r, s2) \<leftarrow> read 0 POLLDELAY s1;
                   case r of
                     Raise e \<Rightarrow> Some (find_except e data, s2)
                   | Return d \<Rightarrow> find_loop patts timeout start (data @ d) s2
                 }))"

definition find_pty ::
  "('p \<Rightarrow> string + compiled) \<Rightarrow> 'p list \<Rightarrow> real \<Rightarrow> pty
     \<Rightarrow> ((nat option \<times> string option) outcome \<times> pty) option" where
  "find_pty re_compile patterns timeout s =
     (let start = os_time s (ntime s);
          data = cache s;
          s0 = s\<lparr>ntime := Suc (ntime s), cache := []\<rparr>
      in
        do {
          (r, s1) \<leftarrow> (if data = [] then read 0 POLLDELAY s0 else Some (Return data, s0));
          case r of
            Raise e \<Rightarrow> Some (find_except e data, s1)
          | Return data1 \<Rightarrow>
              (case compile_all re_compile patterns of
                 Inl m \<Rightarrow> Some (find_except (PyException m) data1, s1)
               | Inr patts \<Rightarrow> find_loop patts timeout start data1 s1)
        })"

text \<open>
  \<^verbatim>\<open>re.compile\<close> and \<^verbatim>\<open>search\<close> for a pattern without metacharacters: the leftmost
  occurrence of the pattern in the data.
\<close>

fun lit_search :: "string \<Rightarrow> string \<Rightarrow> nat option" where
  "lit_search pat [] = (if pat = [] then Some 0 else None)"
| "lit_search pat (c # cs) =
     (if prefix pat (c # cs) then Some (length pat) else map_option Suc (lit_search pat cs))"

definition lit_compile :: "string \<Rightarrow> string + compiled" where
  "lit_compile pat = Inr (lit_search pat)"

section \<open>write\<close>

definition write_except :: "exc \<Rightarrow> unit outcome" where
  "write_except e = Raise (NoSuccess (''write to process failed ('' @ str_exc e @ '')''))"

text \<open>
  \<^verbatim>\<open>while data\<close>: one \<^verbatim>\<open>select\<close> on \<^verbatim>\<open>[self.parent_in]\<close> and, when it is ready, one
  \<^verbatim>\<open>os.write\<close>, which tells how many bytes it took.
\<close>

partial_function (option) write_loop :: "string \<Rightarrow> pty \<Rightarrow> (unit outcome \<times> pty) option" where
  "write_loop data s =
     (if data = [] then Some (Return (), s)
      else
        (case parent_in s of
           None \<Rightarrow> Some (write_except (PyException ''argument must be an int, or have a fileno() method.''), s)
         | Some f \<Rightarrow>
             (let s1 = s\<lparr>nwpoll := Suc (nwpoll s)\<rparr> in
              case os_wpoll s (nwpoll s) of
                WSelectFails m \<Rightarrow> Some (write_except (PyException m), s1)
              | WNotReady \<Rightarrow> write_loop data s1
              | WriteFails e m \<Rightarrow> Some (write_except (OSError e m), s1)
              | Wrote n \<Rightarrow> write_loop (drop n data) s1)))"

definition write_pty :: "string \<Rightarrow> pty \<Rightarrow> (unit outcome \<times> pty) option" where
  "write_pty data s =
     do {
       (a, s1) \<leftarrow> alive False s;
       case a of
         Raise e \<Rightarrow> Some (Raise e, s1)
       | Return ok \<Rightarrow>
           if \<not> ok then
             Some (Raise (NoSuccess (''cannot write to dead process ('' @ tail256 (cache s1) @ '')'')), s1)
           else write_loop data s1
     }"

section \<open>The constructor and the public interface\<close>

text \<open>
  \<^verbatim>\<open>__init__\<close> for a command given as a list; \<open>os\<close> brings the operating system the
  controller is created in. The attributes \<^verbatim>\<open>child_fd\<close>, \<^verbatim>\<open>parent_in\<close> and \<^verbatim>\<open>parent_out\<close>
  exist once \<^verbatim>\<open>initialize\<close> has set them, and no controller is handed out before.
\<close>

definition PTYProcess_init :: "string list \<Rightarrow> pty \<Rightarrow> (unit outcome \<times> pty) option" where
  "PTYProcess_init cmd os =
     (if length cmd < 1 then Some (Raise (BadParameter ''PTYProcess expects non-empty command''), os)
      else
        do {
          (r, s) \<leftarrow> initialize (os\<lparr>command := cmd, cache := [], child := None, child_fd := None,
                                     parent_in := None, parent_out := None, exit_code := None,
                                     exit_signal := None, recover_max := 3, recover_attempts := 0\<rparr>);
          case r of
            Raise e \<Rightarrow> Some (Raise (NoSuccess (''pty or process creation failed ('' @ str_exc e @ '')'')), s)
          | Return u \<Rightarrow> Some (Return (), s)
        })"

text \<open>
  A call of one operation of the controller, and the state the call leaves, whether it
  returns or raises. \<^verbatim>\<open>autopsy\<close> only reads the attributes.
\<close>

datatype 'p call =
    Read nat real
  | Find "'p list" real
  | Write string
  | Alive bool
  | Wait
  | Finalize "wstat option"
  | Autopsy

fun exec :: "('p \<Rightarrow> string + compiled) \<Rightarrow> 'p call \<Rightarrow> pty \<Rightarrow> pty option" where
  "exec re_compile (Read sz timeout) s = map_option snd (read sz timeout s)"
| "exec re_compile (Find patterns timeout) s = map_option snd (find_pty re_compile patterns timeout s)"
| "exec re_compile (Write data) s = map_option snd (write_pty data s)"
| "exec re_compile (Alive recover) s = map_option snd (alive recover s)"
| "exec re_compile Wait s = map_option snd (wait s)"
| "exec re_compile (Finalize wstat) s = map_option snd (finalize wstat s)"
| "exec re_compile Autopsy s = Some s"

fun exec_all :: "('p \<Rightarrow> string + compiled) \<Rightarrow> 'p call list \<Rightarrow> pty \<Rightarrow> pty option" where
  "exec_all re_compile [] s = Some s"
| "exec_all re_compile (c # cs) s =
     (case exec re_compile c s of None \<Rightarrow> None | Some s1 \<Rightarrow> exec_all re_compile cs s1)"

text \<open>
  A controller on \<^verbatim>\<open>/bin/cat\<close> with a quiet environment: the child runs, no output
  arrives, every system call succeeds. The examples below vary it.
\<close>

definition quiet :: pty where
  "quiet =
     \<lparr>command = [''/bin/cat''], cache = [], child = Some 100, child_fd = Some 5,
      parent_in = Some 5, parent_out = Some 5, exit_code = None, exit_signal = None,
      recover_max = 3, recover_attempts = 0, platform = ''linux2'',
      os_fork = (\<lambda>n. Forked (101 + n) 5), nfork = 1,
      os_waitpid = (\<lambda>n. Waited 0 (Exited 0)), nwait = 0, nkill = 0,
      os_close = (\<lambda>n. True), nclose = 0, closed = [],
      os_poll = (\<lambda>n. NotReady), npoll = 0,
      os_wpoll = (\<lambda>n. Wrote 1024), nwpoll = 0,
      os_time = (\<lambda>n. real n / 100), ntime = 0\<rparr>"













fun chunk :: "poll_result \<Rightarrow> string" where
  "chunk (Data b) = strip_cr (take CHUNKSIZE b)"
| "chunk p = []"

definition ingested :: "(nat \<Rightarrow> poll_result) \<Rightarrow> nat \<Rightarrow> nat \<Rightarrow> string" where
  "ingested polls i j = concat (map (\<lambda>n. chunk (polls n)) [i..<j])"

definition no_cr :: "string \<Rightarrow> bool" where
  "no_cr bs \<longleftrightarrow> CHR 0x0D \<notin> set bs"

definition read_post :: "nat \<Rightarrow> pty \<Rightarrow> string outcome \<Rightarrow> pty \<Rightarrow> bool" where
  "read_post sz s r s' \<longleftrightarrow>
     recover_attempts s' = recover_attempts s \<and> recover_max s' = recover_max s
     \<and> nfork s' = nfork s \<and> os_poll s' = os_poll s \<and> npoll s \<le> npoll s'
     \<and> (no_cr (cache s) \<longrightarrow> no_cr (cache s') \<and> (\<forall>d. r = Return d \<longrightarrow> no_cr d))
     \<and> (\<forall>d. r = Return d \<longrightarrow>
           d @ cache s' = cache s @ ingested (os_poll s) (npoll s) (npoll s')
           \<and> (sz = 0 \<longrightarrow> cache s' = []))"

definition find_post ::
  "compiled list \<Rightarrow> real \<Rightarrow> string \<Rightarrow> pty \<Rightarrow> (nat option \<times> string option) outcome \<Rightarrow> pty \<Rightarrow> bool" where
  "find_post patts timeout data s r s' \<longleftrightarrow>
     recover_attempts s' = recover_attempts s \<and> recover_max s' = recover_max s
     \<and> nfork s' = nfork s \<and> os_poll s' = os_poll s \<and> npoll s \<le> npoll s'
     \<and> (no_cr data \<longrightarrow> no_cr (cache s'))
     \<and> (\<forall>n ret. r = Return (Some n, Some ret) \<longrightarrow>
           (\<exists>e. first_match patts (data @ ingested (os_poll s) (npoll s) (npoll s')) = Some (n, e)
              \<and> ret = strip_cr (take e (data @ ingested (os_poll s) (npoll s) (npoll s')))
              \<and> cache s' = drop e (data @ ingested (os_poll s) (npoll s) (npoll s'))))
     \<and> (r = Return (None, None) \<longrightarrow>
           first_match patts (data @ ingested (os_poll s) (npoll s) (npoll s')) = None
           \<and> (timeout = 0 \<longrightarrow> s' = s)
           \<and> (timeout \<noteq> 0 \<longrightarrow> 0 < timeout
                 \<and> cache s' = data @ ingested (os_poll s) (npoll s) (npoll s')))
     \<and> ((\<exists>n ret. r = Return (Some n, Some ret)) \<or> r = Return (None, None) \<or> (\<exists>e. r = Raise e))"



definition slow :: pty where
  "slow = quiet\<lparr>cache := ''ab'', os_poll := (\<lambda>n. Data [CHR ''c'', CHR 0x0D, CHR ''d''])\<rparr>"

section \<open>What the reaping loops and finalize leave untouched\<close>

lemma finalize_reap_frame:
  "finalize_reap s = Some y \<Longrightarrow>
     \<exists>n ec es. snd y = s\<lparr>nwait := n, exit_code := ec, exit_signal := es\<rparr>"
proof (erule finalize_reap.raw_induct[rotated], goal_cases)
  case (1 f s y)
  show ?case
  proof (cases "os_waitpid s (nwait s)")
    case (WaitFails e m)
    with 1(2) have "snd y = s\<lparr>nwait := Suc (nwait s), exit_code := None, exit_signal := None\<rparr>"
      by (auto simp: Let_def)
    then show ?thesis by blast
  next
    case (Waited wpid w)
    show ?thesis
    proof (cases "wpid = 0")
      case True
      with Waited 1(2) have "f (s\<lparr>nwait := Suc (nwait s)\<rparr>) = Some y"
        by (simp add: Let_def)
      from 1(1)[OF this] obtain n ec es
        where "snd y = s\<lparr>nwait := Suc (nwait s)\<rparr>\<lparr>nwait := n, exit_code := ec, exit_signal := es\<rparr>"
        by blast
      then have "snd y = s\<lparr>nwait := n, exit_code := ec, exit_signal := es\<rparr>" by simp
      then show ?thesis by blast
    next
      case False
      with Waited 1(2) have "snd y = s\<lparr>nwait := Suc (nwait s), exit_code := exit_code s, exit_signal := exit_signal s\<rparr>"
        by (auto simp: Let_def)
      then show ?thesis by blast
    qed
  qed
qed

lemma alive_reap_frame:
  "alive_reap s = Some y \<Longrightarrow> \<exists>n. snd y = s\<lparr>nwait := n\<rparr>"
proof (erule alive_reap.raw_induct[rotated], goal_cases)
  case (1 f s y)
  show ?case
  proof (cases "os_waitpid s (nwait s)")
    case (WaitFails e m)
    with 1(2) have "snd y = s\<lparr>nwait := Suc (nwait s)\<rparr>"
      by (auto simp: Let_def)
    then show ?thesis by blast
  next
    case (Waited wpid w)
    show ?thesis
    proof (cases "wpid \<noteq> 0 \<and> (WIFSTOPPED w \<or> WIFCONTINUED w)")
      case True
      with Waited 1(2) have "f (s\<lparr>nwait := Suc (nwait s)\<rparr>) = Some y"
        by (simp add: Let_def)
      from 1(1)[OF this] obtain n
        where "snd y = s\<lparr>nwait := Suc (nwait s)\<rparr>\<lparr>nwait := n\<rparr>"
        by blast
      then have "snd y = s\<lparr>nwait := n\<rparr>" by simp
      then show ?thesis by blast
    next
      case False
      with Waited 1(2) have "snd y = s\<lparr>nwait := Suc (nwait s)\<rparr>"
        by (auto simp: Let_def split: if_splits)
      then show ?thesis by blast
    qed
  qed
qed

lemma classify_frame:
  "\<exists>ec es. classify w s = s\<lparr>exit_code := ec, exit_signal := es\<rparr>"
proof (cases w)
  case None
  then have "classify w s = s\<lparr>exit_code := exit_code s, exit_signal := exit_signal s\<rparr>" by simp
  then show ?thesis by blast
next
  case (Some v)
  then show ?thesis
  proof (cases v)
    case (Exited c)
    with Some show ?thesis by auto
  next
    case (Signaled g)
    with Some show ?thesis by auto
  next
    case (Stopped g)
    with Some have "classify w s = s\<lparr>exit_code := exit_code s, exit_signal := exit_signal s\<rparr>" by simp
    then show ?thesis by blast
  next
    case Continued
    with Some have "classify w s = s\<lparr>exit_code := exit_code s, exit_signal := exit_signal s\<rparr>" by simp
    then show ?thesis by blast
  qed
qed

lemma close_parent_out_frame:
  "\<exists>n cl po. close_parent_out s = s\<lparr>nclose := n, closed := cl, parent_out := po\<rparr>"
proof -
  have "close_parent_out s =
          s\<lparr>nclose := nclose (close_parent_out s), closed := closed (close_parent_out s),
            parent_out := parent_out (close_parent_out s)\<rparr>"
    by (simp add: close_parent_out_def split: option.splits)
  then show ?thesis by blast
qed





section \<open>finalize called twice\<close>






section \<open>What alive leaves untouched\<close>

lemma finalize_frame:
  assumes "finalize w s = Some (r, s1)"
  shows "\<exists>nk n ec es nc cl po. s1 = s\<lparr>child := None, nkill := nk, nwait := n, exit_code := ec,
           exit_signal := es, nclose := nc, closed := cl, parent_out := po\<rparr>"
proof -
  from assms obtain w' s'
    where s1: "s1 = close_parent_out (classify w' (s'\<lparr>child := None\<rparr>))"
      and s': "(w = None \<and> truthy (child s) \<and> finalize_reap (kill_child s) = Some (w', s')) \<or> s' = s"
    by (auto simp: finalize_def split: bind_splits if_splits)
  have "\<exists>nk n ec es. s' = s\<lparr>nkill := nk, nwait := n, exit_code := ec, exit_signal := es\<rparr>"
  proof (cases "s' = s")
    case True
    then have "s' = s\<lparr>nkill := nkill s, nwait := nwait s, exit_code := exit_code s, exit_signal := exit_signal s\<rparr>"
      by simp
    then show ?thesis by blast
  next
    case False
    with s' have "finalize_reap (kill_child s) = Some (w', s')" by blast
    from finalize_reap_frame[OF this] obtain n ec es
      where "s' = kill_child s\<lparr>nwait := n, exit_code := ec, exit_signal := es\<rparr>" by auto
    then have "s' = s\<lparr>nkill := Suc (nkill s), nwait := n, exit_code := ec, exit_signal := es\<rparr>"
      by (simp add: kill_child_def)
    then show ?thesis by blast
  qed
  then obtain nk n ec0 es0 where e: "s' = s\<lparr>nkill := nk, nwait := n, exit_code := ec0, exit_signal := es0\<rparr>"
    by blast
  obtain ec es where c: "classify w' (s'\<lparr>child := None\<rparr>) = s'\<lparr>child := None\<rparr>\<lparr>exit_code := ec, exit_signal := es\<rparr>"
    using classify_frame by blast
  obtain nc cl po where d: "close_parent_out (classify w' (s'\<lparr>child := None\<rparr>))
       = classify w' (s'\<lparr>child := None\<rparr>)\<lparr>nclose := nc, closed := cl, parent_out := po\<rparr>"
    using close_parent_out_frame by blast
  have "s1 = classify w' (s'\<lparr>child := None\<rparr>)\<lparr>nclose := nc, closed := cl, parent_out := po\<rparr>"
    by (simp only: s1 d)
  also have "\<dots> = s'\<lparr>child := None\<rparr>\<lparr>exit_code := ec, exit_signal := es\<rparr>\<lparr>nclose := nc, closed := cl, parent_out := po\<rparr>"
    by (simp only: c)
  also have "\<dots> = s\<lparr>child := None, nkill := nk, nwait := n, exit_code := ec,
           exit_signal := es, nclose := nc, closed := cl, parent_out := po\<rparr>"
    by (simp add: e)
  finally show ?thesis by blast
qed

lemma alive_False: "alive False s = alive_check s"
proof (cases "alive_check s")
  case None
  then show ?thesis by (subst alive.simps) simp
next
  case (Some y)
  obtain r s1 where y: "y = (r, s1)" by (cases y)
  show ?thesis
  proof (cases r)
    case (Return ok)
    with Some y show ?thesis by (subst alive.simps) simp
  next
    case (Raise e)
    with Some y show ?thesis by (subst alive.simps) simp
  qed
qed

lemma alive_check_cases:
  assumes "alive_check s = Some (r, s1)"
  shows "(\<not> truthy (child s) \<and> r = Return False \<and> s1 = s)
       \<or> (truthy (child s) \<and> (\<exists>e. r = Raise e \<and> alive_reap s = Some (Raise e, s1)))
       \<or> (truthy (child s) \<and> r = Return True \<and> alive_reap s = Some (Return None, s1))
       \<or> (truthy (child s) \<and> r = Return False
            \<and> (\<exists>w s0 u. alive_reap s = Some (Return (Some w), s0)
                   \<and> finalize (Some w) (s0\<lparr>child := None\<rparr>) = Some (u, s1)))"
proof (cases "truthy (child s)")
  case False
  with assms show ?thesis by (simp add: alive_check_def)
next
  case True
  with assms obtain q s0 where reap: "alive_reap s = Some (q, s0)"
    and rest: "(case q of Raise e \<Rightarrow> Some (Raise e, s0) | Return None \<Rightarrow> Some (Return True, s0)
          | Return (Some w) \<Rightarrow> finalize (Some w) (s0\<lparr>child := None\<rparr>) \<bind> (\<lambda>(u, s2). Some (Return False, s2))) = Some (r, s1)"
    by (auto simp: alive_check_def split: bind_splits)
  show ?thesis
  proof (cases q)
    case (Raise e)
    with rest reap True show ?thesis by simp
  next
    case (Return v)
    show ?thesis
    proof (cases v)
      case None
      with Return rest reap True show ?thesis by simp
    next
      case (Some w)
      with Return rest obtain u where "finalize (Some w) (s0\<lparr>child := None\<rparr>) = Some (u, s1)" and "r = Return False"
        by (auto split: bind_splits prod.splits)
      with Some Return reap True show ?thesis by blast
    qed
  qed
qed


lemma alive_check_frame:
  assumes "alive_check s = Some (r, s1)"
  shows "\<exists>c nk n ec es nc cl po. s1 = s\<lparr>child := c, nkill := nk, nwait := n, exit_code := ec,
              exit_signal := es, nclose := nc, closed := cl, parent_out := po\<rparr>"
proof -
  let ?G = "\<exists>c nk n ec es nc cl po. s1 = s\<lparr>child := c, nkill := nk, nwait := n, exit_code := ec,
              exit_signal := es, nclose := nc, closed := cl, parent_out := po\<rparr>"
  have same: "?G" if "s1 = s\<lparr>nwait := n\<rparr>" for n
  proof -
    from that have "s1 = s\<lparr>child := child s, nkill := nkill s, nwait := n, exit_code := exit_code s,
      exit_signal := exit_signal s, nclose := nclose s, closed := closed s, parent_out := parent_out s\<rparr>"
      by simp
    then show ?thesis by blast
  qed
  from alive_check_cases[OF assms]
  consider "s1 = s" | q where "alive_reap s = Some (q, s1)"
    | w s0 u where "alive_reap s = Some (Return (Some w), s0)"
                   "finalize (Some w) (s0\<lparr>child := None\<rparr>) = Some (u, s1)"
    by blast
  then show ?thesis
  proof cases
    case 1
    then have "s1 = s\<lparr>nwait := nwait s\<rparr>" by simp
    then show ?thesis by (rule same)
  next
    case 2
    from alive_reap_frame[OF this] obtain n where "s1 = s\<lparr>nwait := n\<rparr>" by auto
    then show ?thesis by (rule same)
  next
    case 3
    from alive_reap_frame[OF 3(1)] obtain n where s0: "s0 = s\<lparr>nwait := n\<rparr>" by auto
    from finalize_frame[OF 3(2)] obtain nk n' ec es nc cl po
      where "s1 = s0\<lparr>child := None\<rparr>\<lparr>child := None, nkill := nk, nwait := n', exit_code := ec,
           exit_signal := es, nclose := nc, closed := cl, parent_out := po\<rparr>" by blast
    then have "s1 = s\<lparr>child := None, nkill := nk, nwait := n', exit_code := ec,
           exit_signal := es, nclose := nc, closed := cl, parent_out := po\<rparr>"
      by (simp add: s0)
    then show ?thesis by blast
  qed
qed




section \<open>read and write on a dead child\<close>








section \<open>read with timeout 0\<close>





section \<open>A zero-length read\<close>




section \<open>What read returns and leaves\<close>

lemma ingested_same: "ingested polls i i = []"
  by (simp add: ingested_def)

lemma ingested_Suc: "ingested polls i (Suc i) = chunk (polls i)"
  by (simp add: ingested_def)

lemma ingested_append: "i \<le> j \<Longrightarrow> j \<le> k \<Longrightarrow> ingested polls i j @ ingested polls j k = ingested polls i k"
proof -
  assume "i \<le> j" "j \<le> k"
  then have "[i..<k] = [i..<j] @ [j..<k]"
    by (metis le_Suc_ex upt_add_eq_append)
  then show ?thesis by (simp add: ingested_def)
qed

lemma no_cr_simps:
  "no_cr []" "no_cr (a @ b) \<longleftrightarrow> no_cr a \<and> no_cr b" "no_cr (strip_cr b)"
  "no_cr a \<Longrightarrow> no_cr (take n a)" "no_cr a \<Longrightarrow> no_cr (drop n a)"
  by (auto simp: no_cr_def strip_cr_def dest: in_set_takeD in_set_dropD)

lemma no_cr_chunk: "no_cr (chunk p)"
  by (cases p) (simp_all add: no_cr_simps)

lemma no_cr_ingested: "no_cr (ingested polls i j)"
  by (auto simp: ingested_def no_cr_def dest!: no_cr_chunk[unfolded no_cr_def, THEN notE, rotated])

lemma read_poll_Inr:
  assumes "read_poll s = Some (Inr s1)"
  shows "s1 = s\<lparr>npoll := Suc (npoll s), cache := cache s @ chunk (os_poll s (npoll s))\<rparr>"
proof -
  from assms obtain f where f: "parent_out s = Some f"
    by (auto simp: read_poll_def split: option.splits)
  show ?thesis
  proof (cases "os_poll s (npoll s)")
    case (Data b)
    with assms f show ?thesis
      by (auto simp: read_poll_def Let_def split: if_splits bind_splits)
  qed (use assms f in \<open>auto simp: read_poll_def Let_def\<close>)
qed

lemma read_poll_Inl:
  assumes "read_poll s = Some (Inl (r, s2))"
  shows "(\<exists>e. r = Raise e) \<and> cache s2 = cache s \<and> recover_attempts s2 = recover_attempts s
       \<and> recover_max s2 = recover_max s \<and> nfork s2 = nfork s \<and> os_poll s2 = os_poll s
       \<and> npoll s \<le> npoll s2"
proof (cases "parent_out s")
  case None
  with assms show ?thesis by (auto simp: read_poll_def read_except_def)
next
  case (Some f)
  show ?thesis
  proof (cases "os_poll s (npoll s)")
    case (Data b)
    with assms Some obtain u where fin: "finalize None (s\<lparr>npoll := Suc (npoll s)\<rparr>) = Some (u, s2)"
      and r: "\<exists>e. r = Raise e"
      by (auto simp: read_poll_def Let_def read_except_def split: if_splits bind_splits)
    from finalize_frame[OF fin] obtain nk n ec es nc cl po
      where "s2 = s\<lparr>npoll := Suc (npoll s)\<rparr>\<lparr>child := None, nkill := nk, nwait := n, exit_code := ec,
           exit_signal := es, nclose := nc, closed := cl, parent_out := po\<rparr>" by blast
    with r show ?thesis by simp
  qed (use assms Some in \<open>auto simp: read_poll_def Let_def read_except_def\<close>)
qed

lemma from_cache_post: "from_cache sz s = Some (r, s') \<Longrightarrow> read_post sz s r s'"
  by (auto simp: from_cache_def read_post_def no_cr_simps ingested_same split: if_splits)

lemma drain_post: "read_post sz s (Return (cache s)) (s\<lparr>cache := []\<rparr>)"
  by (simp add: read_post_def no_cr_simps ingested_same)

lemma tick_post: "read_post sz (s\<lparr>ntime := t\<rparr>) r s' \<Longrightarrow> read_post sz s r s'"
  by (simp add: read_post_def)

lemma step_post:
  assumes "read_post sz (s\<lparr>npoll := Suc (npoll s), cache := cache s @ chunk (os_poll s (npoll s))\<rparr>) r s'"
  shows "read_post sz s r s'"
proof -
  let ?s1 = "s\<lparr>npoll := Suc (npoll s), cache := cache s @ chunk (os_poll s (npoll s))\<rparr>"
  from assms have le: "Suc (npoll s) \<le> npoll s'" by (simp add: read_post_def)
  have ing: "chunk (os_poll s (npoll s)) @ ingested (os_poll s) (Suc (npoll s)) (npoll s')
               = ingested (os_poll s) (npoll s) (npoll s')"
    using ingested_append[of "npoll s" "Suc (npoll s)" "npoll s'" "os_poll s"] le
    by (simp add: ingested_Suc)
  from assms le show ?thesis
    unfolding read_post_def by (simp add: ing no_cr_simps no_cr_chunk)
qed

lemma read_loop_post:
  "read_loop sz timeout start s = Some y \<Longrightarrow> read_post sz s (fst y) (snd y)"
proof (erule read_loop.raw_induct[rotated], goal_cases)
  case (1 f sz timeout start s y)
  obtain r s' where y: "y = (r, s')" by (cases y)
  show ?case
  proof (cases "from_cache sz s")
    case (Some q)
    with 1(2) have "from_cache sz s = Some (r, s')" by (simp add: y)
    then show ?thesis unfolding y fst_conv snd_conv by (rule from_cache_post)
  next
    case None
    with 1(2) obtain p where p: "read_poll s = Some p"
      and rest: "(case p of Inl r \<Rightarrow> Some r
            | Inr s1 \<Rightarrow>
                (case from_cache sz s1 of
                   Some r \<Rightarrow> Some r
                 | None \<Rightarrow>
                     if timeout = 0 then
                       (if cache s1 \<noteq> [] then Some (Return (cache s1), s1\<lparr>cache := []\<rparr>)
                        else f sz timeout start s1)
                     else if timeout < 0 then Some (Return (cache s1), s1\<lparr>cache := []\<rparr>)
                     else
                       (let now = os_time s1 (ntime s1); s2 = s1\<lparr>ntime := Suc (ntime s1)\<rparr> in
                        if now - start > timeout then Some (Return (cache s2), s2\<lparr>cache := []\<rparr>)
                        else f sz timeout start s2))) = Some y"
      by (cases "read_poll s") simp_all
    show ?thesis
    proof (cases p)
      case (Inl q)
      with rest have "read_poll s = Some (Inl (r, s'))" using p by (simp add: y)
      from read_poll_Inl[OF this] obtain e where "r = Raise e" and "cache s' = cache s"
        "recover_attempts s' = recover_attempts s" "recover_max s' = recover_max s"
        "nfork s' = nfork s" "os_poll s' = os_poll s" "npoll s \<le> npoll s'"
        by blast
      then show ?thesis unfolding y fst_conv snd_conv read_post_def by simp
    next
      case (Inr s1)
      from read_poll_Inr[OF p[unfolded Inr]]
      have s1: "s1 = s\<lparr>npoll := Suc (npoll s), cache := cache s @ chunk (os_poll s (npoll s))\<rparr>" .
      have "read_post sz s1 r s'"
      proof (cases "from_cache sz s1")
        case (Some q)
        with rest Inr have "from_cache sz s1 = Some (r, s')" by (simp add: y)
        then show ?thesis by (rule from_cache_post)
      next
        case None
        let ?s2 = "s1\<lparr>ntime := Suc (ntime s1)\<rparr>"
        from rest Inr None
        have body: "(if timeout = 0 then
                       (if cache s1 \<noteq> [] then Some (Return (cache s1), s1\<lparr>cache := []\<rparr>)
                        else f sz timeout start s1)
                     else if timeout < 0 then Some (Return (cache s1), s1\<lparr>cache := []\<rparr>)
                     else
                       (let now = os_time s1 (ntime s1); s2 = s1\<lparr>ntime := Suc (ntime s1)\<rparr> in
                        if now - start > timeout then Some (Return (cache s2), s2\<lparr>cache := []\<rparr>)
                        else f sz timeout start s2)) = Some (r, s')"
          by (simp only: y sum.case option.case)
        have via_f: "read_post sz t r s'" if "f sz timeout start t = Some (r, s')" for t
          using 1(1)[OF that] by simp
        show ?thesis
        proof (cases "timeout = 0")
          case True
          show ?thesis
          proof (cases "cache s1 = []")
            case True
            with body \<open>timeout = 0\<close> have "f sz timeout start s1 = Some (r, s')" by simp
            then show ?thesis by (rule via_f)
          next
            case False
            with body \<open>timeout = 0\<close> have "r = Return (cache s1)" "s' = s1\<lparr>cache := []\<rparr>" by simp_all
            then show ?thesis by (simp add: drain_post)
          qed
        next
          case nz: False
          show ?thesis
          proof (cases "timeout < 0")
            case True
            with body nz have "r = Return (cache s1)" "s' = s1\<lparr>cache := []\<rparr>" by simp_all
            then show ?thesis by (simp add: drain_post)
          next
            case False
            show ?thesis
            proof (cases "os_time s1 (ntime s1) - start > timeout")
              case True
              with body nz False have "r = Return (cache ?s2)" "s' = ?s2\<lparr>cache := []\<rparr>" by (simp_all add: Let_def)
              then have "read_post sz ?s2 r s'" by (simp only: drain_post)
              then show ?thesis by (rule tick_post)
            next
              case late: False
              with body nz False have "f sz timeout start ?s2 = Some (r, s')" by (simp add: Let_def)
              then have "read_post sz ?s2 r s'" by (rule via_f)
              then show ?thesis by (rule tick_post)
            qed
          qed
        qed
      qed
      then show ?thesis unfolding y fst_conv snd_conv s1 by (rule step_post)
    qed
  qed
qed

section \<open>What find returns and leaves\<close>

lemma read_read_post:
  assumes "read sz timeout s = Some (r, s')"
  shows "read_post sz s r s'"
proof -
  from assms obtain a s1 where al: "alive False s = Some (a, s1)"
    and rest: "(case a of Raise e \<Rightarrow> Some (Raise e, s1)
       | Return ok \<Rightarrow>
           if \<not> ok then
             Some (Raise (NoSuccess (if cache s1 \<noteq> [] then ''process I/O failed: '' @ tail256 (cache s1)
                                     else ''process I/O failed'')), s1)
           else read_loop sz timeout (os_time s1 (ntime s1)) (s1\<lparr>ntime := Suc (ntime s1)\<rparr>)) = Some (r, s')"
    by (cases "alive False s") (auto simp: read_def)
  from alive_check_frame[OF al[unfolded alive_False]] obtain c nk n ec es nc cl po
    where s1: "s1 = s\<lparr>child := c, nkill := nk, nwait := n, exit_code := ec, exit_signal := es,
              nclose := nc, closed := cl, parent_out := po\<rparr>" by blast
  have raise: "read_post sz s (Raise e) s1" for e
    by (simp add: read_post_def s1)
  show ?thesis
  proof (cases a)
    case (Raise e)
    with rest raise show ?thesis by auto
  next
    case (Return ok)
    show ?thesis
    proof (cases ok)
      case False
      with rest Return raise show ?thesis by auto
    next
      case True
      with rest Return
      have "read_loop sz timeout (os_time s1 (ntime s1)) (s1\<lparr>ntime := Suc (ntime s1)\<rparr>) = Some (r, s')"
        by simp
      from read_loop_post[OF this] have "read_post sz (s1\<lparr>ntime := Suc (ntime s1)\<rparr>) r s'" by simp
      then show ?thesis by (simp add: read_post_def s1)
    qed
  qed
qed

lemma find_loop_post:
  "find_loop patts timeout start data s = Some y \<Longrightarrow>
     cache s = [] \<longrightarrow> find_post patts timeout data s (fst y) (snd y)"
proof (erule find_loop.raw_induct[rotated], goal_cases)
  case (1 f patts timeout start data s y)
  obtain r s' where y: "y = (r, s')" by (cases y)
  show ?case
  proof
    assume emp: "cache s = []"
    show "find_post patts timeout data s (fst y) (snd y)"
    proof (cases "first_match patts data")
      case (Some ne)
      obtain n e where ne: "ne = (n, e)" by (cases ne)
      from 1(2) Some ne have "r = Return (Some n, Some (strip_cr (take e data)))" "s' = s\<lparr>cache := drop e data\<rparr>"
        by (simp_all add: y)
      then show ?thesis
        unfolding y fst_conv snd_conv find_post_def by (simp add: Some ne ingested_same no_cr_simps)
    next
      case None
      show ?thesis
      proof (cases "timeout = 0")
        case True
        with 1(2) None have "r = Return (None, None)" "s' = s" by (simp_all add: y)
        then show ?thesis
          unfolding y fst_conv snd_conv find_post_def by (simp add: None True ingested_same emp no_cr_simps)
      next
        case nz: False
        let ?s1 = "if timeout > 0 then s\<lparr>ntime := Suc (ntime s)\<rparr> else s"
        have s1f: "cache ?s1 = []" "npoll ?s1 = npoll s" "os_poll ?s1 = os_poll s"
          "recover_attempts ?s1 = recover_attempts s" "recover_max ?s1 = recover_max s"
          "nfork ?s1 = nfork s"
          using emp by simp_all
        show ?thesis
        proof (cases "timeout > 0 \<and> os_time s (ntime s) - start > timeout")
          case True
          with 1(2) None nz have "r = Return (None, None)" "s' = (s\<lparr>ntime := Suc (ntime s)\<rparr>)\<lparr>cache := data\<rparr>"
            by (simp_all add: y Let_def)
          then show ?thesis
            unfolding y fst_conv snd_conv find_post_def using True
            by (simp add: None ingested_same)
        next
          case False
          with 1(2) None nz obtain q s2 where rd: "read 0 POLLDELAY ?s1 = Some (q, s2)"
            and rest: "(case q of Raise e \<Rightarrow> Some (find_except e data, s2)
                         | Return d \<Rightarrow> f patts timeout start (data @ d) s2) = Some (r, s')"
            by (cases "read 0 POLLDELAY ?s1") (auto simp: y Let_def)
          note rp = read_read_post[OF rd, unfolded read_post_def]
          show ?thesis
          proof (cases q)
            case (Raise e)
            with rest have "r = find_except e data" "s' = s2" by simp_all
            with rp s1f show ?thesis
              unfolding y fst_conv snd_conv find_post_def
              by (simp add: find_except_def no_cr_simps)
          next
            case (Return d)
            with rp s1f have d: "d = ingested (os_poll s) (npoll s) (npoll s2)" and c2: "cache s2 = []"
              and le: "npoll s \<le> npoll s2" and op: "os_poll s2 = os_poll s"
              and fr: "recover_attempts s2 = recover_attempts s" "recover_max s2 = recover_max s"
                "nfork s2 = nfork s"
              by auto
            from rest Return have "f patts timeout start (data @ d) s2 = Some (r, s')" by simp
            from 1(1)[OF this] c2 have fp: "find_post patts timeout (data @ d) s2 r s'" by simp
            then have le2: "npoll s2 \<le> npoll s'" by (simp add: find_post_def)
            have acc: "(data @ d) @ ingested (os_poll s2) (npoll s2) (npoll s')
                        = data @ ingested (os_poll s) (npoll s) (npoll s')"
              using ingested_append[OF le le2, of "os_poll s"] by (simp add: d op)
            have nc: "no_cr data \<longrightarrow> no_cr (data @ d)"
              by (simp add: d no_cr_simps no_cr_ingested)
            from fp nz le le2 show ?thesis
              unfolding y fst_conv snd_conv find_post_def acc
              using nc by (simp add: op fr)
          qed
        qed
      qed
    qed
  qed
qed

lemma find_pty_first_stage:
  assumes "(if cache s = [] then read 0 POLLDELAY (s\<lparr>ntime := Suc (ntime s), cache := []\<rparr>)
            else Some (Return (cache s), s\<lparr>ntime := Suc (ntime s), cache := []\<rparr>)) = Some (q, s1)"
  shows "recover_attempts s1 = recover_attempts s \<and> recover_max s1 = recover_max s
       \<and> nfork s1 = nfork s \<and> os_poll s1 = os_poll s \<and> npoll s \<le> npoll s1
       \<and> no_cr (cache s1)
       \<and> ((\<exists>e. q = Raise e)
          \<or> (q = Return (cache s @ ingested (os_poll s) (npoll s) (npoll s1)) \<and> cache s1 = []))"
proof (cases "cache s = []")
  case False
  with assms have "q = Return (cache s)" "s1 = s\<lparr>ntime := Suc (ntime s), cache := []\<rparr>" by simp_all
  then show ?thesis by (simp add: ingested_same no_cr_simps)
next
  case True
  let ?s0 = "s\<lparr>ntime := Suc (ntime s), cache := []\<rparr>"
  from True assms have "read 0 POLLDELAY ?s0 = Some (q, s1)" by simp
  note rp = read_read_post[OF this, unfolded read_post_def]
  have fr: "recover_attempts s1 = recover_attempts s \<and> recover_max s1 = recover_max s
       \<and> nfork s1 = nfork s \<and> os_poll s1 = os_poll s \<and> npoll s \<le> npoll s1 \<and> no_cr (cache s1)"
    using rp by (simp add: no_cr_simps)
  show ?thesis
  proof (cases q)
    case (Raise e)
    with fr show ?thesis by simp
  next
    case (Return d)
    with rp have "d = ingested (os_poll s) (npoll s) (npoll s1)" "cache s1 = []"
      by auto
    with Return True fr show ?thesis by simp
  qed
qed

lemma find_pty_result:
  assumes "find_pty rc ps timeout s = Some (r, s')"
  shows "recover_attempts s' = recover_attempts s \<and> recover_max s' = recover_max s
       \<and> nfork s' = nfork s \<and> os_poll s' = os_poll s \<and> npoll s \<le> npoll s'
       \<and> (no_cr (cache s) \<longrightarrow> no_cr (cache s'))
       \<and> (\<forall>n ret. r = Return (Some n, Some ret) \<longrightarrow>
            (\<exists>patts e. compile_all rc ps = Inr patts
               \<and> first_match patts (cache s @ ingested (os_poll s) (npoll s) (npoll s')) = Some (n, e)
               \<and> ret = strip_cr (take e (cache s @ ingested (os_poll s) (npoll s) (npoll s')))
               \<and> cache s' = drop e (cache s @ ingested (os_poll s) (npoll s) (npoll s'))))
       \<and> (r = Return (None, None) \<longrightarrow>
            (\<exists>patts. compile_all rc ps = Inr patts
               \<and> first_match patts (cache s @ ingested (os_poll s) (npoll s) (npoll s')) = None)
            \<and> (timeout = 0 \<longrightarrow> cache s' = [])
            \<and> (timeout \<noteq> 0 \<longrightarrow> 0 < timeout
                 \<and> cache s' = cache s @ ingested (os_poll s) (npoll s) (npoll s')))"
proof -
  let ?s0 = "s\<lparr>ntime := Suc (ntime s), cache := []\<rparr>"
  let ?stage = "if cache s = [] then read 0 POLLDELAY ?s0 else Some (Return (cache s), ?s0)"
  from assms obtain q s1 where st: "?stage = Some (q, s1)"
    and rest: "(case q of Raise e \<Rightarrow> Some (find_except e (cache s), s1)
          | Return data1 \<Rightarrow>
              (case compile_all rc ps of
                 Inl m \<Rightarrow> Some (find_except (PyException m) data1, s1)
               | Inr patts \<Rightarrow> find_loop patts timeout (os_time s (ntime s)) data1 s1)) = Some (r, s')"
    by (cases ?stage) (auto simp: find_pty_def Let_def)
  note fs = find_pty_first_stage[OF st]
  have raised: ?thesis if "s' = s1" "\<exists>e. r = Raise e"
    using that fs by auto
  show ?thesis
  proof (cases q)
    case (Raise e)
    with rest have "s' = s1" "r = find_except e (cache s)" by simp_all
    then show ?thesis by (intro raised) (simp_all add: find_except_def)
  next
    case (Return data1)
    with fs have d1: "data1 = cache s @ ingested (os_poll s) (npoll s) (npoll s1)" and c1: "cache s1 = []"
      by simp_all
    show ?thesis
    proof (cases "compile_all rc ps")
      case (Inl m)
      with rest Return have "s' = s1" "r = find_except (PyException m) data1" by simp_all
      then show ?thesis by (intro raised) (simp_all add: find_except_def)
    next
      case (Inr patts)
      with rest Return have "find_loop patts timeout (os_time s (ntime s)) data1 s1 = Some (r, s')"
        by simp
      from find_loop_post[OF this] c1 have fp: "find_post patts timeout data1 s1 r s'" by simp
      from fs have le: "npoll s \<le> npoll s1" and op: "os_poll s1 = os_poll s" by simp_all
      from fp have le2: "npoll s1 \<le> npoll s'" by (simp add: find_post_def)
      have acc: "data1 @ ingested (os_poll s1) (npoll s1) (npoll s')
                   = cache s @ ingested (os_poll s) (npoll s) (npoll s')"
        using ingested_append[OF le le2, of "os_poll s"] by (simp add: d1 op)
      have nc: "no_cr (cache s) \<longrightarrow> no_cr data1"
        by (simp add: d1 no_cr_simps no_cr_ingested)
      have t0: "timeout = 0 \<longrightarrow> r = Return (None, None) \<longrightarrow> cache s' = []"
        using fp c1 by (auto simp: find_post_def)
      from fp fs le2 nc t0 show ?thesis
        unfolding find_post_def acc by (simp add: Inr)
    qed
  qed
qed



lemma find_pty_cached:
  assumes "cache s \<noteq> []" and "compile_all rc ps = Inr patts"
  shows "find_pty rc ps timeout s
           = find_loop patts timeout (os_time s (ntime s)) (cache s) (s\<lparr>ntime := Suc (ntime s), cache := []\<rparr>)"
  using assms by (simp add: find_pty_def Let_def)


lemma find_pty_cached_miss0:
  assumes "cache s \<noteq> []" and "compile_all rc ps = Inr patts" and "first_match patts (cache s) = None"
  shows "find_pty rc ps 0 s = Some (Return (None, None), s\<lparr>ntime := Suc (ntime s), cache := []\<rparr>)"
  unfolding find_pty_cached[OF assms(1,2)]
  by (subst find_loop.simps) (simp add: assms(3))




lemma slow_find0:
  "find_pty lit_compile [''z''] 0 slow
     = Some (Return (None, None), slow\<lparr>ntime := 1, cache := []\<rparr>)"
  by (simp add: find_pty_def find_loop.simps first_match_def lit_compile_def
      slow_def quiet_def Let_def)


section \<open>find: the match\<close>



section \<open>find: the order of the patterns\<close>



section \<open>find: no match\<close>



text \<open>
  C10: when \<^verbatim>\<open>find\<close> with timeout 0 returns \<^verbatim>\<open>(None, None)\<close>, no pattern matches the data of
  its single pass (the cache at entry followed by what the polls of this call delivered),
  and the cache is left empty: that data is neither returned nor restored. And whenever
  the first stage of the call yields data that no pattern matches, the call returns
  \<^verbatim>\<open>(None, None)\<close> in the state that stage left, the cache empty.
\<close>

theorem find_timeout0_discards:
  "(find_pty rc ps 0 s = Some (Return (None, None), s') \<longrightarrow>
      cache s' = []
      \<and> (\<exists>patts. compile_all rc ps = Inr patts
            \<and> first_match patts (cache s @ ingested (os_poll s) (npoll s) (npoll s')) = None))
   \<and> (compile_all rc ps = Inr patts
        \<and> (if cache s = [] then read 0 POLLDELAY (s\<lparr>ntime := Suc (ntime s), cache := []\<rparr>)
            else Some (Return (cache s), s\<lparr>ntime := Suc (ntime s), cache := []\<rparr>)) = Some (Return d, s1)
        \<and> first_match patts d = None \<longrightarrow>
        find_pty rc ps 0 s = Some (Return (None, None), s1) \<and> cache s1 = [])"
proof -
  have A: "find_pty rc ps 0 s = Some (Return (None, None), s') \<longrightarrow>
      cache s' = []
      \<and> (\<exists>patts. compile_all rc ps = Inr patts
            \<and> first_match patts (cache s @ ingested (os_poll s) (npoll s) (npoll s')) = None)"
    using find_pty_result[of rc ps 0 s "Return (None, None)" s'] by auto
  have B: "find_pty rc ps 0 s = Some (Return (None, None), s1) \<and> cache s1 = []"
    if c: "compile_all rc ps = Inr patts"
      and st: "(if cache s = [] then read 0 POLLDELAY (s\<lparr>ntime := Suc (ntime s), cache := []\<rparr>)
            else Some (Return (cache s), s\<lparr>ntime := Suc (ntime s), cache := []\<rparr>)) = Some (Return d, s1)"
      and m: "first_match patts d = None"
  proof -
    have "find_loop patts 0 (os_time s (ntime s)) d s1 = Some (Return (None, None), s1)"
      by (subst find_loop.simps) (simp add: m)
    then have "find_pty rc ps 0 s = Some (Return (None, None), s1)"
      using c st by (simp add: find_pty_def Let_def)
    moreover from find_pty_first_stage[OF st] have "cache s1 = []" by simp
    ultimately show ?thesis by simp
  qed
  from A B show ?thesis by blast
qed

theorem find_timeout0_discards_witness:
  "find_pty lit_compile [''z''] 0 slow = Some (Return (None, None), slow\<lparr>ntime := 1, cache := []\<rparr>)
   \<and> cache slow = ''ab'' \<and> cache (slow\<lparr>ntime := 1, cache := []\<rparr>) = []
   \<and> (\<exists>patts. compile_all lit_compile [''z''] = Inr patts \<and> first_match patts ''ab'' = None)"
proof -
  have c: "cache slow = ''ab''" "npoll slow = 0"
    by (simp_all add: slow_def quiet_def)
  from find_timeout0_discards[of lit_compile "[''z'']" slow "slow\<lparr>ntime := 1, cache := []\<rparr>",
      THEN conjunct1, THEN mp, OF slow_find0]
  have "\<exists>patts. compile_all lit_compile [''z''] = Inr patts
            \<and> first_match patts (cache slow @ ingested (os_poll slow) (npoll slow) (npoll slow)) = None"
    by simp
  then have "\<exists>patts. compile_all lit_compile [''z''] = Inr patts \<and> first_match patts ''ab'' = None"
    by (simp add: c ingested_same)
  with slow_find0 c show ?thesis by simp
qed

end
